theory Spec2Isabelle
  imports Main
begin

section \<open>logaround: parsing, matching and context expansion of journal lines\<close>

text \<open>
  A shallow embedding of \<^verbatim>\<open>logaround.py\<close>: the line parser
  \<^verbatim>\<open>parse_journalctl_output\<close>, the filter and context expander \<^verbatim>\<open>search_logs\<close>, and
  the part of \<^verbatim>\<open>main\<close> that runs them. Python's \<^verbatim>\<open>str\<close> is modelled by \<^typ>\<open>string\<close>,
  a \<^typ>\<open>char\<close> standing for one of the code points U+0000 to U+00FF. Every exception the
  code can raise is a value \<open>Inl e\<close> of the result.
\<close>

subsection \<open>Characters\<close>

definition code :: "char \<Rightarrow> nat" where
  "code c = of_char c"

text \<open>\<^verbatim>\<open>str.isspace\<close>, used by \<^verbatim>\<open>str.strip()\<close> and by \<^verbatim>\<open>\S\<close>.\<close>

definition is_space :: "char \<Rightarrow> bool" where
  "is_space c = (code c \<in> {9, 10, 11, 12, 13, 28, 29, 30, 31, 32, 133, 160})"

text \<open>The line boundaries of \<^verbatim>\<open>str.splitlines()\<close>.\<close>

definition is_linebreak :: "char \<Rightarrow> bool" where
  "is_linebreak c = (code c \<in> {10, 11, 12, 13, 28, 29, 30, 133})"

text \<open>\<^verbatim>\<open>\d\<close> of a \<^verbatim>\<open>str\<close> pattern: the decimal digits.\<close>

definition is_digit :: "char \<Rightarrow> bool" where
  "is_digit c = (48 \<le> code c \<and> code c \<le> 57)"

text \<open>\<^verbatim>\<open>\w\<close> of a \<^verbatim>\<open>str\<close> pattern: alphanumeric (alphabetic, decimal, digit or numeric)
  or the underscore.\<close>

definition is_word :: "char \<Rightarrow> bool" where
  "is_word c = (let n = code c in
     (48 \<le> n \<and> n \<le> 57) \<or> (65 \<le> n \<and> n \<le> 90) \<or> n = 95 \<or> (97 \<le> n \<and> n \<le> 122)
     \<or> n \<in> {170, 178, 179, 181, 185, 186, 188, 189, 190}
     \<or> (192 \<le> n \<and> n \<le> 214) \<or> (216 \<le> n \<and> n \<le> 246) \<or> 248 \<le> n)"

text \<open>Lower-casing, as the case-insensitive comparison of \<^verbatim>\<open>re.IGNORECASE\<close> uses it.\<close>

definition lower :: "char \<Rightarrow> char" where
  "lower c = (let n = code c in
     if (65 \<le> n \<and> n \<le> 90) \<or> (192 \<le> n \<and> n \<le> 222 \<and> n \<noteq> 215) then char_of (n + 32) else c)"

subsection \<open>Strings\<close>

text \<open>\<^verbatim>\<open>str.strip()\<close>: leading and trailing whitespace removed.\<close>

definition strip :: "string \<Rightarrow> string" where
  "strip s = rev (dropWhile is_space (rev (dropWhile is_space s)))"

text \<open>
  \<^verbatim>\<open>str.splitlines()\<close>: the text is cut at every line boundary, \<^verbatim>\<open>\r\n\<close> counting as
  one; the boundaries are not kept, and a text that ends with a boundary has no empty last
  line. The first argument is the line read so far, reversed.
\<close>

fun splitlines_from :: "string \<Rightarrow> string \<Rightarrow> string list" where
  "splitlines_from cur [] = (if cur = [] then [] else [rev cur])"
| "splitlines_from cur (c # cs) =
     (if is_linebreak c then
        (if code c = 13 \<and> cs \<noteq> [] \<and> code (hd cs) = 10
         then rev cur # splitlines_from [] (tl cs)
         else rev cur # splitlines_from [] cs)
      else splitlines_from (c # cur) cs)"

definition splitlines :: "string \<Rightarrow> string list" where
  "splitlines output = splitlines_from [] output"

text \<open>Python's \<^verbatim>\<open>range(a, b)\<close>.\<close>

definition py_range :: "int \<Rightarrow> int \<Rightarrow> int list" where
  "py_range a b = [a..b - 1]"

subsection \<open>Errors\<close>

datatype error =
    KeyError string   \<comment> \<open>a frame has no column of that name\<close>
  | IndexError        \<comment> \<open>a position outside the frame\<close>
  | AttributeError    \<comment> \<open>\<^verbatim>\<open>None.strip()\<close>\<close>
  | ReError           \<comment> \<open>\<^verbatim>\<open>re.error\<close>: a term that is no valid pattern\<close>
  | OutsideFragment   \<comment> \<open>no exception of the program: a term that the instance of the
                          search operation below does not model\<close>

subsection \<open>The regular expression of the line parser\<close>

text \<open>
  The constructs that the pattern of \<^verbatim>\<open>parse_journalctl_output\<close> uses: a single-character
  item repeated greedily (\<^verbatim>\<open>\w{3}\<close>, \<^verbatim>\<open> +\<close>, \<^verbatim>\<open>\d{1,2}\<close>, \<^verbatim>\<open>\S+\<close>, \<^verbatim>\<open>[^:\[]+\<close>,
  \<^verbatim>\<open>.*\<close>, and a plain character as a repetition of exactly one), concatenation, a named
  group \<^verbatim>\<open>(?P<name>...)\<close> and a greedy optional part \<^verbatim>\<open>(?:...)?\<close>.
\<close>

datatype charset =
    Word                \<comment> \<open>\<^verbatim>\<open>\w\<close>\<close>
  | Digit               \<comment> \<open>\<^verbatim>\<open>\d\<close>\<close>
  | NonSpace            \<comment> \<open>\<^verbatim>\<open>\S\<close>\<close>
  | Literal char        \<comment> \<open>a plain character\<close>
  | NoneOf "char list"  \<comment> \<open>\<^verbatim>\<open>[^...]\<close>\<close>
  | AnyChar             \<comment> \<open>\<^verbatim>\<open>.\<close>: any character but \<^verbatim>\<open>\n\<close>\<close>

fun in_charset :: "charset \<Rightarrow> char \<Rightarrow> bool" where
  "in_charset Word c = is_word c"
| "in_charset Digit c = is_digit c"
| "in_charset NonSpace c = (\<not> is_space c)"
| "in_charset (Literal l) c = (c = l)"
| "in_charset (NoneOf cs) c = (c \<notin> set cs)"
| "in_charset AnyChar c = (code c \<noteq> 10)"

datatype regex =
    Eps
  | Chars charset nat "nat option"  \<comment> \<open>at least \<open>m\<close>, at most \<open>n\<close> (\<open>None\<close>: unbounded), greedy\<close>
  | Then regex regex
  | Named string regex
  | Optional regex

text \<open>How many characters at the front of the input a greedy repetition can take.\<close>

fun run_length :: "charset \<Rightarrow> nat option \<Rightarrow> string \<Rightarrow> nat" where
  "run_length cs None s = length (takeWhile (in_charset cs) s)"
| "run_length cs (Some n) s = min n (length (takeWhile (in_charset cs) s))"

text \<open>
  A matching state is the input still to read and the groups bound so far (the latest
  binding first). \<open>rmatch r st\<close> lists the states in which a match of \<open>r\<close> from \<open>st\<close> can end,
  in the order in which the backtracking matcher tries them: a greedy repetition gives
  the longest run first, an optional part is tried before it is skipped.
\<close>

type_synonym mstate = "string \<times> (string \<times> string) list"

fun rmatch :: "regex \<Rightarrow> mstate \<Rightarrow> mstate list" where
  "rmatch Eps st = [st]"
| "rmatch (Chars cs m n) st =
     map (\<lambda>k. (drop k (fst st), snd st)) (rev [m ..< Suc (run_length cs n (fst st))])"
| "rmatch (Then r1 r2) st = concat (map (rmatch r2) (rmatch r1 st))"
| "rmatch (Named name r) st =
     map (\<lambda>st'. (fst st', (name, take (length (fst st) - length (fst st')) (fst st)) # snd st'))
       (rmatch r st)"
| "rmatch (Optional r) st = rmatch r st @ [st]"

text \<open>\<^verbatim>\<open>re.match(regex, line)\<close>: the first way to match at the start of the line, as the
  groups it binds; \<open>None\<close> when there is none.\<close>

definition re_match :: "regex \<Rightarrow> string \<Rightarrow> (string \<times> string) list option" where
  "re_match r line = (case rmatch r (line, []) of [] \<Rightarrow> None | st # _ \<Rightarrow> Some (snd st))"

text \<open>One entry of \<^verbatim>\<open>match.groupdict()\<close>: \<open>None\<close> for a group that took no part in the match.\<close>

definition group :: "(string \<times> string) list \<Rightarrow> string \<Rightarrow> string option" where
  "group groups name = map_of groups name"

definition lit :: "char \<Rightarrow> regex" where
  "lit c = Chars (Literal c) 1 (Some 1)"

fun seq :: "regex list \<Rightarrow> regex" where
  "seq [] = Eps"
| "seq (r # rs) = Then r (seq rs)"

text \<open>
  \<^verbatim>\<open>(?P<timestamp>\w{3} +\d{1,2} +\d{2}:\d{2}:\d{2}) (?P<host>\S+) (?P<unit>[^:\[]+)(?:\[\d+\])?: (?P<message>.*)\<close>
\<close>

definition regex :: regex where
  "regex = seq
     [Named ''timestamp'' (seq
        [Chars Word 3 (Some 3), Chars (Literal CHR '' '') 1 None,
         Chars Digit 1 (Some 2), Chars (Literal CHR '' '') 1 None,
         Chars Digit 2 (Some 2), lit CHR '':'', Chars Digit 2 (Some 2), lit CHR '':'',
         Chars Digit 2 (Some 2)]),
      lit CHR '' '',
      Named ''host'' (Chars NonSpace 1 None),
      lit CHR '' '',
      Named ''unit'' (Chars (NoneOf [CHR '':'', CHR ''['']) 1 None),
      Optional (seq [lit CHR ''['', Chars Digit 1 None, lit CHR '']'']),
      lit CHR '':'', lit CHR '' '',
      Named ''message'' (Chars AnyChar 0 None)]"

subsection \<open>Records and data frames\<close>

record LogRecord =
  timestamp :: string
  host :: string
  unit :: string
  message :: string

text \<open>
  A pandas \<^verbatim>\<open>DataFrame\<close>: the column labels and the rows, each row with its index label.
\<close>

record DataFrame =
  columns :: "string list"
  df_rows :: "(int \<times> LogRecord) list"

text \<open>
  \<^verbatim>\<open>pd.DataFrame(rows)\<close> for a list of dicts that all have the keys \<^verbatim>\<open>timestamp\<close>,
  \<^verbatim>\<open>host\<close>, \<^verbatim>\<open>unit\<close>, \<^verbatim>\<open>message\<close>: the columns are the keys of the dicts, so an empty
  list gives a frame without columns; the index is \<^verbatim>\<open>RangeIndex(len(rows))\<close>.
\<close>

definition pd_DataFrame :: "LogRecord list \<Rightarrow> DataFrame" where
  "pd_DataFrame rs =
     \<lparr>columns = (if rs = [] then [] else [''timestamp'', ''host'', ''unit'', ''message'']),
      df_rows = zip (py_range 0 (int (length rs))) rs\<rparr>"

text \<open>\<^verbatim>\<open>df.index.tolist()\<close>, \<^verbatim>\<open>len(df)\<close> and \<^verbatim>\<open>df.empty\<close> (some axis has length 0).\<close>

definition index :: "DataFrame \<Rightarrow> int list" where
  "index df = map fst (df_rows df)"

definition len :: "DataFrame \<Rightarrow> int" where
  "len df = int (length (df_rows df))"

definition empty :: "DataFrame \<Rightarrow> bool" where
  "empty df = (columns df = [] \<or> df_rows df = [])"

text \<open>\<^verbatim>\<open>df['message']\<close>: the column as a list of values, \<^verbatim>\<open>KeyError\<close> when the frame has no
  such column.\<close>

definition getitem_message :: "DataFrame \<Rightarrow> error + string list" where
  "getitem_message df =
     (if ''message'' \<in> set (columns df) then Inr (map (\<lambda>row. message (snd row)) (df_rows df))
      else Inl (KeyError ''message''))"

text \<open>\<^verbatim>\<open>df[mask]\<close> for a boolean series \<open>bmask\<close> over the index of \<open>df\<close>: the rows whose entry is
  true, with their labels.\<close>

definition getitem_mask :: "DataFrame \<Rightarrow> bool list \<Rightarrow> DataFrame" where
  "getitem_mask df bmask = df\<lparr>df_rows := map snd (filter fst (zip bmask (df_rows df)))\<rparr>"

text \<open>\<^verbatim>\<open>df.iloc[idxs]\<close>: the rows at the given positions, a negative position counting from
  the end, \<^verbatim>\<open>IndexError\<close> for a position out of bounds.\<close>

definition iloc :: "DataFrame \<Rightarrow> int list \<Rightarrow> error + DataFrame" where
  "iloc df idxs =
     (if list_all (\<lambda>i. - len df \<le> i \<and> i < len df) idxs
      then Inr (df\<lparr>df_rows := map (\<lambda>i. df_rows df ! nat (if i < 0 then len df + i else i)) idxs\<rparr>)
      else Inl IndexError)"

subsection \<open>The line parser\<close>

text \<open>
  The body of the loop of \<^verbatim>\<open>parse_journalctl_output\<close> for one line: the groups of the
  match, or the fallback dict, and then \<^verbatim>\<open>v.strip()\<close> on every value. A group that took
  no part in the match is \<^verbatim>\<open>None\<close> in \<^verbatim>\<open>groupdict()\<close>, on which \<^verbatim>\<open>strip\<close> raises
  \<^verbatim>\<open>AttributeError\<close>.
\<close>

definition strip_values ::
  "string option \<Rightarrow> string option \<Rightarrow> string option \<Rightarrow> string option \<Rightarrow> error + LogRecord" where
  "strip_values t h u m =
     (case (t, h, u, m) of
        (Some t', Some h', Some u', Some m') \<Rightarrow>
          Inr \<lparr>timestamp = strip t', host = strip h', unit = strip u', message = strip m'\<rparr>
      | _ \<Rightarrow> Inl AttributeError)"

definition parse_line :: "string \<Rightarrow> error + LogRecord" where
  "parse_line line =
     (case re_match regex line of
        Some groups \<Rightarrow>
          strip_values (group groups ''timestamp'') (group groups ''host'')
            (group groups ''unit'') (group groups ''message'')
      | None \<Rightarrow> strip_values (Some []) (Some []) (Some []) (Some line))"

text \<open>The loop over the lines, appending one row per line to \<open>rows\<close>.\<close>

fun parse_lines :: "string list \<Rightarrow> LogRecord list \<Rightarrow> error + LogRecord list" where
  "parse_lines [] rows = Inr rows"
| "parse_lines (line # lines) rows =
     (case parse_line line of
        Inl e \<Rightarrow> Inl e
      | Inr row \<Rightarrow> parse_lines lines (rows @ [row]))"

definition parse_journalctl_output :: "string \<Rightarrow> error + DataFrame" where
  "parse_journalctl_output output =
     (case parse_lines (splitlines output) [] of
        Inl e \<Rightarrow> Inl e
      | Inr rows \<Rightarrow> Inr (pd_DataFrame rows))"

subsection \<open>The filter and the context expander\<close>

text \<open>
  \<^verbatim>\<open>Series.str.contains(term, case=False, na=False)\<close> is pandas' code. It compiles the term
  as a regular expression (\<^verbatim>\<open>regex=True\<close> is the default) with \<^verbatim>\<open>re.IGNORECASE\<close>, which
  can raise, and then searches every value. \<^verbatim>\<open>search_logs\<close> takes this operation as its
  first argument \<open>contains\<close>: a term gives an error or a test on messages.
\<close>

type_synonym contains = "string \<Rightarrow> error + (string \<Rightarrow> bool)"

definition str_contains :: "contains \<Rightarrow> string list \<Rightarrow> string \<Rightarrow> error + bool list" where
  "str_contains contains col term =
     (case contains term of Inl e \<Rightarrow> Inl e | Inr found \<Rightarrow> Inr (map found col))"

text \<open>The loop \<^verbatim>\<open>for term in terms: mask &= df['message'].str.contains(...)\<close>.\<close>

fun mask_loop :: "contains \<Rightarrow> DataFrame \<Rightarrow> string list \<Rightarrow> bool list \<Rightarrow> error + bool list" where
  "mask_loop contains df [] bmask = Inr bmask"
| "mask_loop contains df (term # terms) bmask =
     (case getitem_message df of
        Inl e \<Rightarrow> Inl e
      | Inr col \<Rightarrow>
          (case str_contains contains col term of
             Inl e \<Rightarrow> Inl e
           | Inr hits \<Rightarrow> mask_loop contains df terms (map2 (\<and>) bmask hits)))"

text \<open>Lines 100 to 102: the mask starts as \<^verbatim>\<open>pd.Series(True, index=df.index)\<close>.\<close>

definition match_mask :: "contains \<Rightarrow> DataFrame \<Rightarrow> string list \<Rightarrow> error + bool list" where
  "match_mask contains df terms = mask_loop contains df terms (replicate (length (df_rows df)) True)"

text \<open>The loop \<^verbatim>\<open>for idx in match_idxs: context_idxs.update(range(...))\<close> on the set
  \<open>context_idxs\<close>.\<close>

fun context_loop :: "DataFrame \<Rightarrow> int \<Rightarrow> int list \<Rightarrow> int set \<Rightarrow> int set" where
  "context_loop df delta [] context_idxs = context_idxs"
| "context_loop df delta (idx # match_idxs) context_idxs =
     context_loop df delta match_idxs
       (context_idxs \<union> set (py_range (max 0 (idx - delta)) (min (len df) (idx + delta + 1))))"

definition search_logs :: "contains \<Rightarrow> DataFrame \<Rightarrow> string list \<Rightarrow> int \<Rightarrow> error + DataFrame" where
  "search_logs contains df terms delta =
     (if terms = [] then Inr df
      else case match_mask contains df terms of
        Inl e \<Rightarrow> Inl e
      | Inr bmask \<Rightarrow>
          (let match_idxs = index (getitem_mask df bmask) in
           if delta = 0 \<or> match_idxs = [] then Inr (getitem_mask df bmask)
           else iloc df (sorted_list_of_set (context_loop df delta match_idxs {}))))"

subsection \<open>The caller\<close>

text \<open>
  \<^verbatim>\<open>main\<close> from the point where the text of the journal has been fetched: \<open>output\<close> is what
  \<^verbatim>\<open>run_journalctl\<close> returned, \<open>term\<close> is \<^verbatim>\<open>args.term\<close> (\<^verbatim>\<open>None\<close> without \<^verbatim>\<open>--term\<close>), \<open>delta\<close>
  and \<open>max_rows\<close> are \<^verbatim>\<open>args.delta\<close> and \<^verbatim>\<open>args.max\<close>. It prints the message of an empty
  result or hands the frame to \<^verbatim>\<open>print_table\<close>; an exception ends the run.
\<close>

datatype outcome =
    NoResults                             \<comment> \<open>\<^verbatim>\<open>No results found for your search.\<close>\<close>
  | PrintTable DataFrame "string list" int  \<comment> \<open>\<^verbatim>\<open>print_table(filtered, terms, max_rows)\<close>\<close>

definition arg_terms :: "string list option \<Rightarrow> string list" where
  "arg_terms term = (case term of None \<Rightarrow> [] | Some ts \<Rightarrow> if ts = [] then [] else ts)"

definition main :: "contains \<Rightarrow> string \<Rightarrow> string list option \<Rightarrow> int \<Rightarrow> int \<Rightarrow> error + outcome" where
  "main contains output term delta max_rows =
     (case parse_journalctl_output output of
        Inl e \<Rightarrow> Inl e
      | Inr df \<Rightarrow>
          (case search_logs contains df (arg_terms term) delta of
             Inl e \<Rightarrow> Inl e
           | Inr filtered \<Rightarrow>
               Inr (if empty filtered then NoResults
                    else PrintTable filtered (arg_terms term) max_rows)))"

subsection \<open>An instance of the search operation\<close>

text \<open>
  \<^verbatim>\<open>re.compile(term, re.IGNORECASE).search(message)\<close>, which is what
  \<^verbatim>\<open>str.contains(term, case=False)\<close> runs, for the terms made of plain characters and the
  dot. A plain character matches itself in either case, the dot matches any character but
  \<^verbatim>\<open>\n\<close>. The other special characters of the pattern syntax are not modelled: the
  instance answers \<open>OutsideFragment\<close> for a term that has one, which is a limit of the
  instance and not an exception of the program.
\<close>

datatype pattern_item = PChar char | PDot

definition special_chars :: "char list" where
  "special_chars = [CHR ''.'', CHR ''^'', CHR ''$'', CHR ''*'', CHR ''+'', CHR ''?'', CHR ''{'',
     CHR ''}'', CHR ''['', CHR '']'', CHR 0x5C, CHR ''|'', CHR ''('', CHR '')'']"

fun re_compile :: "string \<Rightarrow> error + pattern_item list" where
  "re_compile [] = Inr []"
| "re_compile (c # cs) =
     (if c \<in> set special_chars \<and> c \<noteq> CHR ''.'' then Inl OutsideFragment
      else case re_compile cs of
        Inl e \<Rightarrow> Inl e
      | Inr items \<Rightarrow> Inr ((if c = CHR ''.'' then PDot else PChar c) # items))"

fun item_matches :: "pattern_item \<Rightarrow> char \<Rightarrow> bool" where
  "item_matches (PChar l) c = (lower c = lower l)"
| "item_matches PDot c = (code c \<noteq> 10)"

fun match_here :: "pattern_item list \<Rightarrow> string \<Rightarrow> bool" where
  "match_here [] s = True"
| "match_here (p # ps) [] = False"
| "match_here (p # ps) (c # cs) = (item_matches p c \<and> match_here ps cs)"

fun re_search :: "pattern_item list \<Rightarrow> string \<Rightarrow> bool" where
  "re_search items [] = match_here items []"
| "re_search items (c # cs) = (match_here items (c # cs) \<or> re_search items cs)"

definition re_contains :: contains where
  "re_contains term = (case re_compile term of Inl e \<Rightarrow> Inl e | Inr items \<Rightarrow> Inr (re_search items))"

subsection \<open>The notions of the specification\<close>

text \<open>
  A term occurs in a message as a literal substring under case-insensitive comparison:
  at some position of the message every character of the term is there, up to case.
\<close>

fun literal_prefix_ci :: "string \<Rightarrow> string \<Rightarrow> bool" where
  "literal_prefix_ci [] s = True"
| "literal_prefix_ci (t # ts) [] = False"
| "literal_prefix_ci (t # ts) (c # cs) = (lower c = lower t \<and> literal_prefix_ci ts cs)"

fun literal_substring_ci :: "string \<Rightarrow> string \<Rightarrow> bool" where
  "literal_substring_ci t [] = literal_prefix_ci t []"
| "literal_substring_ci t (c # cs) = (literal_prefix_ci t (c # cs) \<or> literal_substring_ci t cs)"

text \<open>A record matches a term list under \<open>contains\<close>: every term compiles and is found in
  the message.\<close>

definition found_in :: "contains \<Rightarrow> string \<Rightarrow> string \<Rightarrow> bool" where
  "found_in contains term msg = (case contains term of Inl e \<Rightarrow> False | Inr found \<Rightarrow> found msg)"

definition matches_all :: "contains \<Rightarrow> string list \<Rightarrow> LogRecord \<Rightarrow> bool" where
  "matches_all contains terms r = list_all (\<lambda>term. found_in contains term (message r)) terms"

text \<open>The window of radius \<open>R\<close> around the matches \<open>M\<close> in a sequence of length \<open>N\<close>.\<close>

definition window :: "int \<Rightarrow> int set \<Rightarrow> int \<Rightarrow> int set" where
  "window N M R = {j. \<exists>i\<in>M. max 0 (i - R) \<le> j \<and> j \<le> min (N - 1) (i + R)}"

subsection \<open>The groups a match is sure to bind\<close>

fun bound_names :: "regex \<Rightarrow> string set" where
  "bound_names Eps = {}"
| "bound_names (Chars cs m n) = {}"
| "bound_names (Then r1 r2) = bound_names r1 \<union> bound_names r2"
| "bound_names (Named name r) = insert name (bound_names r)"
| "bound_names (Optional r) = {}"

subsection \<open>Example inputs\<close>


definition raw_record :: "string \<Rightarrow> LogRecord" where
  "raw_record msg = \<lparr>timestamp = [], host = [], unit = [], message = msg\<rparr>"

definition overlap_records :: "LogRecord list" where
  "overlap_records = map raw_record
     [''a'', ''b'', ''hit'', ''c'', ''Hit'', ''d'', ''e'', ''f'', ''g'', ''h'']"

definition overlap_mask :: "bool list" where
  "overlap_mask = [False, False, True, False, True, False, False, False, False, False]"

definition rows_at :: "int list \<Rightarrow> DataFrame" where
  "rows_at js =
     (pd_DataFrame overlap_records)\<lparr>df_rows := map (\<lambda>j. (j, overlap_records ! nat j)) js\<rparr>"

section \<open>The line parser\<close>

subsection \<open>A match binds the four named groups\<close>

lemma rmatch_binds:
  "st' \<in> set (rmatch r st) \<Longrightarrow> fst ` set (snd st) \<union> bound_names r \<subseteq> fst ` set (snd st')"
proof (induction r arbitrary: st st')
  case (Then r1 r2)
  from Then.prems obtain mid where "mid \<in> set (rmatch r1 st)" "st' \<in> set (rmatch r2 mid)"
    by auto
  with Then.IH(1)[of mid st] Then.IH(2)[of st' mid]
  have "fst ` set (snd st) \<union> bound_names r1 \<subseteq> fst ` set (snd mid)"
    and "fst ` set (snd mid) \<union> bound_names r2 \<subseteq> fst ` set (snd st')"
    by simp_all
  then show ?case by (simp only: bound_names.simps) blast
next
  case (Named name r)
  from Named.prems obtain e where e: "e \<in> set (rmatch r st)"
    and st': "snd st' = (name, take (length (fst st) - length (fst e)) (fst st)) # snd e"
    by auto
  from Named.IH[OF e] have "fst ` set (snd st) \<union> bound_names r \<subseteq> fst ` set (snd e)" .
  then show ?case by (simp only: st' bound_names.simps) auto
next
  case (Optional r)
  from Optional.prems have "st' \<in> set (rmatch r st) \<or> st' = st" by auto
  then show ?case
  proof
    assume "st' \<in> set (rmatch r st)"
    from Optional.IH[OF this] show ?thesis by simp
  next
    assume "st' = st"
    then show ?thesis by simp
  qed
qed auto

lemma bound_names_regex:
  "bound_names regex = {''timestamp'', ''host'', ''unit'', ''message''}"
  by (auto simp: regex_def lit_def)

lemma re_match_groups:
  assumes "re_match regex line = Some groups"
    and "name \<in> {''timestamp'', ''host'', ''unit'', ''message''}"
  shows "\<exists>text. group groups name = Some text"
proof -
  from assms(1) obtain st where "st \<in> set (rmatch regex (line, []))" "snd st = groups"
    by (auto simp: re_match_def split: list.splits)
  from rmatch_binds[OF this(1)] this(2) assms(2) have "name \<in> fst ` set groups"
    by (simp only: bound_names_regex) auto
  then have "map_of groups name \<noteq> None"
    by (simp add: map_of_eq_None_iff)
  then show ?thesis by (auto simp: group_def)
qed

text \<open>So \<^verbatim>\<open>v.strip()\<close> never meets \<^verbatim>\<open>None\<close>: the loop body raises for no line.\<close>

lemma parse_line_total: "\<exists>row. parse_line line = Inr row"
proof (cases "re_match regex line")
  case None
  then show ?thesis by (simp add: parse_line_def strip_values_def)
next
  case (Some groups)
  from re_match_groups[OF Some] obtain t h u m where
    "group groups ''timestamp'' = Some t" "group groups ''host'' = Some h"
    "group groups ''unit'' = Some u" "group groups ''message'' = Some m"
    by (metis insertI1 insertI2)
  with Some show ?thesis by (simp add: parse_line_def strip_values_def)
qed

lemma parse_lines_rows:
  "\<exists>rs. parse_lines lines acc = Inr (acc @ rs) \<and> map parse_line lines = map Inr rs"
proof (induction lines arbitrary: acc)
  case Nil
  then show ?case by simp
next
  case (Cons line lines)
  obtain row where row: "parse_line line = Inr row"
    using parse_line_total by blast
  from Cons.IH[of "acc @ [row]"] obtain rs where
    "parse_lines lines (acc @ [row]) = Inr (acc @ [row] @ rs)" "map parse_line lines = map Inr rs"
    by auto
  then show ?case
    by (intro exI[of _ "row # rs"]) (simp add: row)
qed

subsection \<open>Lines\<close>

text \<open>A text made of \<open>N\<close> lines, each ended by \<^verbatim>\<open>\n\<close> and holding no line boundary itself,
  is split into these \<open>N\<close> lines, and parsed into \<open>N\<close> rows.\<close>

lemma splitlines_from_line:
  "\<forall>c\<in>set l. \<not> is_linebreak c \<Longrightarrow>
   splitlines_from cur (l @ CHR 0x0A # rest) = (rev cur @ l) # splitlines_from [] rest"
proof (induction l arbitrary: cur)
  case Nil
  show ?case by (simp add: is_linebreak_def code_def)
next
  case (Cons a l)
  then show ?case by simp
qed

lemma splitlines_newline_terminated:
  "\<forall>l\<in>set ls. \<forall>c\<in>set l. \<not> is_linebreak c \<Longrightarrow>
   splitlines (concat (map (\<lambda>l. l @ [CHR 0x0A]) ls)) = ls"
  unfolding splitlines_def
  by (induction ls) (simp_all add: splitlines_from_line)

lemma parse_newline_terminated:
  assumes "\<forall>l\<in>set ls. \<forall>c\<in>set l. \<not> is_linebreak c"
  shows "\<exists>df. parse_journalctl_output (concat (map (\<lambda>l. l @ [CHR 0x0A]) ls)) = Inr df
     \<and> length (df_rows df) = length ls"
proof -
  obtain rs where rs: "parse_lines ls [] = Inr rs" and each: "map parse_line ls = map Inr rs"
    using parse_lines_rows[of ls "[]"] by auto
  from each have "length rs = length ls"
    by (metis length_map)
  then show ?thesis
    by (simp add: parse_journalctl_output_def splitlines_newline_terminated[OF assms] rs
        pd_DataFrame_def py_range_def)
qed

subsection \<open>One record per line\<close>



subsection \<open>The fallback record\<close>

text \<open>
  What the code does with a line that does not match the pattern: the record has the empty
  string as timestamp, host and unit, and as message the line with its leading and trailing
  whitespace removed, since the dict comprehension at line 79 applies \<^verbatim>\<open>strip()\<close> to the
  values of the fallback dict too.
\<close>

lemma fallback_stripped:
  assumes "re_match regex line = None"
  shows "parse_line line = Inr \<lparr>timestamp = [], host = [], unit = [], message = strip line\<rparr>"
  using assms by (simp add: parse_line_def strip_values_def strip_def)

lemma fallback_stripped_example:
  "re_match regex ''garbage line'' = None \<and>
   parse_line ''garbage line'' =
     Inr \<lparr>timestamp = [], host = [], unit = [], message = ''garbage line''\<rparr>"
proof -
  have h: "re_match regex ''garbage line'' = None" by code_simp
  have s: "strip ''garbage line'' = ''garbage line''" by code_simp
  from fallback_stripped[OF h] h show ?thesis by (simp only: s)
qed

text \<open>
  Claim C2 (fallback correctness: the message of the record of a line that does not match
  is the original line verbatim, the other three fields are empty) fails on the code for a
  line with a blank at its start or end. The docstring (\<^verbatim>\<open>put the whole thing in 'message'\<close>)
  and the comment of the fallback branch (\<^verbatim>\<open>keep whole line\<close>) say what the claim says, but
  line 79 strips the fallback values as well: the line \<^verbatim>\<open>" x"\<close> does not match the pattern,
  and its record has the message \<^verbatim>\<open>"x"\<close>, which is not the line.
\<close>

theorem fallback_not_verbatim:
  "re_match regex '' x'' = None
   \<and> parse_line '' x'' = Inr \<lparr>timestamp = [], host = [], unit = [], message = ''x''\<rparr>
   \<and> ''x'' \<noteq> '' x''"
  by code_simp

section \<open>The filter\<close>

subsection \<open>What the mask holds\<close>

lemma getitem_mask_map:
  "getitem_mask df (map P (df_rows df)) = df\<lparr>df_rows := filter P (df_rows df)\<rparr>"
proof -
  have "map snd (filter fst (zip (map P xs) xs)) = filter P xs" for xs :: "(int \<times> LogRecord) list"
    by (induction xs) auto
  then show ?thesis by (simp add: getitem_mask_def)
qed

lemma mask_loop_sem:
  "mask_loop c df terms bmask = Inr m \<Longrightarrow> length bmask = length (df_rows df) \<Longrightarrow>
   m = map (\<lambda>(b, row). b \<and> matches_all c terms (snd row)) (zip bmask (df_rows df))"
proof (induction terms arbitrary: bmask)
  case Nil
  then show ?case by (simp add: matches_all_def list_eq_iff_nth_eq)
next
  case (Cons t ts)
  from Cons.prems(1) obtain found where ct: "c t = Inr found"
    and col: "''message'' \<in> set (columns df)"
    and rest: "mask_loop c df ts
        (map2 (\<and>) bmask (map found (map (\<lambda>row. message (snd row)) (df_rows df)))) = Inr m"
    by (auto simp: getitem_message_def str_contains_def split: if_splits sum.splits)
  have "m = map (\<lambda>(b, row). b \<and> matches_all c ts (snd row))
     (zip (map2 (\<and>) bmask (map found (map (\<lambda>row. message (snd row)) (df_rows df))))
        (df_rows df))"
    by (rule Cons.IH[OF rest]) (simp add: Cons.prems(2))
  then show ?case using Cons.prems(2)
    by (auto simp: list_eq_iff_nth_eq matches_all_def found_in_def ct)
qed

text \<open>When the loop ends without an exception, the mask says of every row whether its
  message holds every term.\<close>

lemma match_mask_sem:
  assumes "match_mask c df terms = Inr m"
  shows "m = map (\<lambda>row. matches_all c terms (snd row)) (df_rows df)"
  using mask_loop_sem[OF assms[unfolded match_mask_def]]
  by (simp add: list_eq_iff_nth_eq)

text \<open>The loop ends without an exception exactly when there is no term, or the frame has
  the column and every term compiles.\<close>

lemma mask_loop_ok:
  "(\<exists>m. mask_loop c df terms bmask = Inr m) \<longleftrightarrow>
   (terms = [] \<or> (''message'' \<in> set (columns df) \<and> (\<forall>t\<in>set terms. \<exists>f. c t = Inr f)))"
proof (induction terms arbitrary: bmask)
  case Nil
  then show ?case by simp
next
  case (Cons t ts)
  show ?case
    by (cases "c t") (auto simp: getitem_message_def str_contains_def Cons.IH)
qed

lemma matches_all_subset:
  "set ts' \<subseteq> set ts \<Longrightarrow> matches_all c ts r \<Longrightarrow> matches_all c ts' r"
  by (auto simp: matches_all_def list_all_iff)

subsection \<open>Plain terms\<close>

text \<open>For a term without special characters the instance \<open>re_contains\<close> is the literal
  case-insensitive substring test.\<close>

lemma re_compile_plain:
  "set t \<inter> set special_chars = {} \<Longrightarrow> re_compile t = Inr (map PChar t)"
  by (induction t) (auto simp: special_chars_def)

lemma match_here_plain: "match_here (map PChar t) s = literal_prefix_ci t s"
  by (induction t s rule: literal_prefix_ci.induct) auto

lemma re_search_plain: "re_search (map PChar t) s = literal_substring_ci t s"
  by (induction s) (auto simp: match_here_plain)

lemma re_contains_plain:
  "set t \<inter> set special_chars = {} \<Longrightarrow> found_in re_contains t msg = literal_substring_ci t msg"
  by (simp add: found_in_def re_contains_def re_compile_plain re_search_plain)

subsection \<open>Terms are regular expressions\<close>

text \<open>
  Claim C3 (a record is included iff every term occurs in its message as a literal
  substring, case-insensitively) fails on the code: \<^verbatim>\<open>str.contains\<close> runs with its default
  \<^verbatim>\<open>regex=True\<close>, so the term \<^verbatim>\<open>a.c\<close> is a pattern whose dot matches any character. With
  the one record of message \<^verbatim>\<open>abc\<close> and the term \<^verbatim>\<open>a.c\<close>, \<^verbatim>\<open>search_logs\<close> returns the
  record, though \<^verbatim>\<open>a.c\<close> is no substring of \<^verbatim>\<open>abc\<close>.
\<close>

theorem regex_term_matches:
  "search_logs re_contains (pd_DataFrame [raw_record ''abc'']) [''a.c''] 0
     = Inr (pd_DataFrame [raw_record ''abc''])
   \<and> \<not> literal_substring_ci ''a.c'' (message (raw_record ''abc''))"
  by code_simp

subsection \<open>Removing a term\<close>

text \<open>
  Claim C7 (term-removal monotonicity). When \<^verbatim>\<open>search_logs\<close> computes the mask of a term
  list, it also computes the mask of the list with any one term removed, and every row
  (every index) that the first mask selects is selected by the second: the set of matching
  indices can only grow or stay.
\<close>

theorem term_removal_monotone:
  assumes "match_mask c df terms = Inr bmask"
    and "i < length terms"
  shows "\<exists>bmask'. match_mask c df (take i terms @ drop (Suc i) terms) = Inr bmask'
     \<and> set (df_rows (getitem_mask df bmask)) \<subseteq> set (df_rows (getitem_mask df bmask'))
     \<and> set (index (getitem_mask df bmask)) \<subseteq> set (index (getitem_mask df bmask'))"
proof -
  let ?ts = "take i terms @ drop (Suc i) terms"
  have sub: "set ?ts \<subseteq> set terms"
    using set_take_subset[of i terms] set_drop_subset[of "Suc i" terms] by auto
  from assms(1) have "\<exists>m. mask_loop c df terms (replicate (length (df_rows df)) True) = Inr m"
    by (simp add: match_mask_def)
  then have "terms = [] \<or> (''message'' \<in> set (columns df) \<and> (\<forall>t\<in>set terms. \<exists>f. c t = Inr f))"
    by (simp only: mask_loop_ok)
  with assms(2) sub
  have "?ts = [] \<or> (''message'' \<in> set (columns df) \<and> (\<forall>t\<in>set ?ts. \<exists>f. c t = Inr f))"
    by auto
  then have "\<exists>m. mask_loop c df ?ts (replicate (length (df_rows df)) True) = Inr m"
    by (simp only: mask_loop_ok)
  then obtain bmask' where m': "match_mask c df ?ts = Inr bmask'"
    by (auto simp: match_mask_def)
  have rows: "set (df_rows (getitem_mask df bmask)) \<subseteq> set (df_rows (getitem_mask df bmask'))"
    using matches_all_subset[OF sub]
    by (auto simp: match_mask_sem[OF assms(1)] match_mask_sem[OF m'] getitem_mask_map)
  then have "set (index (getitem_mask df bmask)) \<subseteq> set (index (getitem_mask df bmask'))"
    by (auto simp: index_def)
  with m' rows show ?thesis by blast
qed

theorem term_removal_monotone_witness:
  "match_mask re_contains (pd_DataFrame overlap_records) [''h'', ''hit''] = Inr overlap_mask \<and>
   (1::nat) < length [''h'', ''hit''] \<and>
   (\<exists>bmask'. match_mask re_contains (pd_DataFrame overlap_records) [''h''] = Inr bmask'
      \<and> set (index (getitem_mask (pd_DataFrame overlap_records) overlap_mask))
          \<subseteq> set (index (getitem_mask (pd_DataFrame overlap_records) bmask')))"
proof -
  have m: "match_mask re_contains (pd_DataFrame overlap_records) [''h'', ''hit''] = Inr overlap_mask"
    by code_simp
  have i: "(1::nat) < length [''h'', ''hit'']" by simp
  from term_removal_monotone[OF m i]
  have "\<exists>bmask'. match_mask re_contains (pd_DataFrame overlap_records) [''h''] = Inr bmask'
      \<and> set (index (getitem_mask (pd_DataFrame overlap_records) overlap_mask))
          \<subseteq> set (index (getitem_mask (pd_DataFrame overlap_records) bmask'))"
    by simp blast
  with m i show ?thesis by blast
qed

section \<open>The context expander\<close>

subsection \<open>The set that the loop builds\<close>

lemma set_py_range: "set (py_range a b) = {a..<b}"
  by (auto simp: py_range_def)

lemma context_loop_union:
  "context_loop df delta idxs acc =
     acc \<union> (\<Union>idx\<in>set idxs. {max 0 (idx - delta)..<min (len df) (idx + delta + 1)})"
  by (induction idxs arbitrary: acc) (auto simp: set_py_range)

lemma context_loop_window:
  "context_loop df delta idxs {} = window (len df) (set idxs) delta"
  by (auto simp: context_loop_union window_def)

lemma window_bounds: "window N M R \<subseteq> {0..<N}"
  by (auto simp: window_def)

lemma finite_window: "finite (window N M R)"
  by (rule finite_subset[OF window_bounds]) simp

lemma window_negative: "R < 0 \<Longrightarrow> window N M R = {}"
  by (auto simp: window_def)

lemma window_zero: "M \<subseteq> {0..<N} \<Longrightarrow> window N M 0 = M"
  by (fastforce simp: window_def)

lemma window_mono: "R1 \<le> R2 \<Longrightarrow> window N M R1 \<subseteq> window N M R2"
proof
  fix j assume le: "R1 \<le> R2" and "j \<in> window N M R1"
  then obtain i where i: "i \<in> M" "max 0 (i - R1) \<le> j" "j \<le> min (N - 1) (i + R1)"
    by (auto simp: window_def)
  from le i(2,3) have "max 0 (i - R2) \<le> j \<and> j \<le> min (N - 1) (i + R2)" by auto
  with i(1) show "j \<in> window N M R2" by (auto simp: window_def)
qed

subsection \<open>Frames built from a list of records\<close>

lemma pd_DataFrame_rows: "df_rows (pd_DataFrame recs) = zip [0..int (length recs) - 1] recs"
  by (simp add: pd_DataFrame_def py_range_def)

lemma pd_DataFrame_len: "len (pd_DataFrame recs) = int (length recs)"
  by (simp add: len_def pd_DataFrame_rows)

lemma pd_DataFrame_nth:
  "0 \<le> j \<Longrightarrow> j < int (length recs) \<Longrightarrow> df_rows (pd_DataFrame recs) ! nat j = (j, recs ! nat j)"
  by (simp add: pd_DataFrame_rows)

lemma in_pd_DataFrame_rows:
  "(j, r) \<in> set (df_rows (pd_DataFrame recs)) \<Longrightarrow>
     0 \<le> j \<and> j < int (length recs) \<and> r = recs ! nat j"
  by (auto simp: pd_DataFrame_rows in_set_zip)

lemma filtered_rows:
  "filter P (df_rows (pd_DataFrame recs)) =
     map (\<lambda>j. (j, recs ! nat j)) (map fst (filter P (df_rows (pd_DataFrame recs))))"
proof -
  have "map ((\<lambda>j. (j, recs ! nat j)) \<circ> fst) (filter P (df_rows (pd_DataFrame recs)))
      = filter P (df_rows (pd_DataFrame recs))"
    by (rule map_idI) (auto dest: in_pd_DataFrame_rows)
  then show ?thesis by simp
qed

lemma filtered_index_sorted:
  "sorted (map fst (filter P (df_rows (pd_DataFrame recs))))"
  "distinct (map fst (filter P (df_rows (pd_DataFrame recs))))"
  "set (map fst (filter P (df_rows (pd_DataFrame recs)))) \<subseteq> {0..<int (length recs)}"
proof -
  have ix: "map fst (df_rows (pd_DataFrame recs)) = [0..int (length recs) - 1]"
    by (simp add: pd_DataFrame_rows)
  show "sorted (map fst (filter P (df_rows (pd_DataFrame recs))))"
    by (rule sorted_filter) (simp add: ix)
  show "distinct (map fst (filter P (df_rows (pd_DataFrame recs))))"
    by (rule distinct_map_filter) (simp add: ix)
  show "set (map fst (filter P (df_rows (pd_DataFrame recs)))) \<subseteq> {0..<int (length recs)}"
    by (auto dest: in_pd_DataFrame_rows)
qed

text \<open>\<^verbatim>\<open>iloc\<close> raises no \<^verbatim>\<open>IndexError\<close> for positions within the frame.\<close>

lemma iloc_in_range:
  assumes "set js \<subseteq> {0..<int (length recs)}"
  shows "iloc (pd_DataFrame recs) js =
     Inr ((pd_DataFrame recs)\<lparr>df_rows := map (\<lambda>j. (j, recs ! nat j)) js\<rparr>)"
proof -
  have "list_all (\<lambda>i. - len (pd_DataFrame recs) \<le> i \<and> i < len (pd_DataFrame recs)) js"
    using assms by (auto simp: list_all_iff pd_DataFrame_len)
  moreover have "map (\<lambda>i. df_rows (pd_DataFrame recs) !
        nat (if i < 0 then len (pd_DataFrame recs) + i else i)) js
      = map (\<lambda>j. (j, recs ! nat j)) js"
    using assms by (auto simp: pd_DataFrame_nth)
  ultimately show ?thesis by (simp add: iloc_def)
qed

lemma iloc_nil: "iloc df [] = Inr (df\<lparr>df_rows := []\<rparr>)"
  by (simp add: iloc_def)

lemma set_index_frame:
  "set (index (df\<lparr>df_rows := map (\<lambda>j. (j, f j)) js\<rparr>)) = set js"
  by (simp add: index_def comp_def)

subsection \<open>The result of \<^verbatim>\<open>search_logs\<close> for every radius\<close>

text \<open>
  Once the mask is computed, the result for any \<open>R\<close> (zero, positive or negative) is the
  frame of the rows at the positions of the window, in ascending order.
\<close>

lemma search_logs_frame:
  assumes terms: "terms \<noteq> []"
    and mask: "match_mask c (pd_DataFrame recs) terms = Inr bmask"
  shows "search_logs c (pd_DataFrame recs) terms R =
     Inr ((pd_DataFrame recs)\<lparr>df_rows := map (\<lambda>j. (j, recs ! nat j))
       (sorted_list_of_set (window (int (length recs))
          (set (index (getitem_mask (pd_DataFrame recs) bmask))) R))\<rparr>)"
proof -
  let ?df = "pd_DataFrame recs"
  let ?P = "\<lambda>row. matches_all c terms (snd row)"
  let ?M = "index (getitem_mask ?df bmask)"
  have bm: "getitem_mask ?df bmask = ?df\<lparr>df_rows := filter ?P (df_rows ?df)\<rparr>"
    using match_mask_sem[OF mask] by (simp add: getitem_mask_map)
  have M: "?M = map fst (filter ?P (df_rows ?df))"
    by (simp add: bm index_def)
  have sub: "set ?M \<subseteq> {0..<int (length recs)}"
    and srt: "sorted ?M" and dst: "distinct ?M"
    unfolding M by (rule filtered_index_sorted)+
  show ?thesis
  proof (cases "R = 0 \<or> ?M = []")
    case True
    have W: "sorted_list_of_set (window (int (length recs)) (set ?M) R) = ?M"
    proof (cases "?M = []")
      case True
      then show ?thesis by (simp add: window_def)
    next
      case False
      with \<open>R = 0 \<or> ?M = []\<close> have "R = 0" by simp
      then show ?thesis
        using window_zero[OF sub] srt dst
        by (simp add: sorted_list_of_set.idem_if_sorted_distinct)
    qed
    have "search_logs c ?df terms R = Inr (getitem_mask ?df bmask)"
      using terms mask True by (simp add: search_logs_def Let_def)
    also have "getitem_mask ?df bmask = ?df\<lparr>df_rows := map (\<lambda>j. (j, recs ! nat j)) ?M\<rparr>"
      by (simp only: M) (simp only: bm filtered_rows[symmetric])
    finally show ?thesis by (simp only: W)
  next
    case False
    let ?js = "sorted_list_of_set (window (int (length recs)) (set ?M) R)"
    have "set ?js \<subseteq> {0..<int (length recs)}"
      using window_bounds[of "int (length recs)" "set ?M" R] by (simp add: finite_window)
    from iloc_in_range[OF this] show ?thesis
      using terms mask False
      by (simp add: search_logs_def Let_def context_loop_window pd_DataFrame_len)
  qed
qed

subsection \<open>Context expansion\<close>

text \<open>
  Where the filter computes a mask (the frame has the column \<^verbatim>\<open>message\<close> and every term
  compiles): for a sequence of \<open>N\<close> records, the match index set \<open>M\<close> of the mask and a radius
  \<open>R > 0\<close>, \<^verbatim>\<open>search_logs\<close> returns the records at the indices
  \<open>{j. \<exists>i\<in>M. max 0 (i - R) \<le> j \<and> j \<le> min (N - 1) (i + R)}\<close>, in ascending order, every
  index once, none below \<open>0\<close> and none at or above \<open>N\<close>.
\<close>

lemma context_expansion:
  assumes "terms \<noteq> []"
    and "match_mask c (pd_DataFrame recs) terms = Inr bmask"
    and "0 < R"
  shows "\<exists>out. search_logs c (pd_DataFrame recs) terms R = Inr out
     \<and> index out = sorted_list_of_set (window (int (length recs))
          (set (index (getitem_mask (pd_DataFrame recs) bmask))) R)
     \<and> map snd (df_rows out) = map (\<lambda>j. recs ! nat j) (index out)
     \<and> columns out = columns (pd_DataFrame recs)
     \<and> sorted (index out) \<and> distinct (index out)
     \<and> (\<forall>j\<in>set (index out). 0 \<le> j \<and> j < int (length recs))"
proof -
  let ?W = "window (int (length recs)) (set (index (getitem_mask (pd_DataFrame recs) bmask))) R"
  let ?out = "(pd_DataFrame recs)\<lparr>df_rows :=
    map (\<lambda>j. (j, recs ! nat j)) (sorted_list_of_set ?W)\<rparr>"
  have run: "search_logs c (pd_DataFrame recs) terms R = Inr ?out"
    by (rule search_logs_frame[OF assms(1,2)])
  have ix: "index ?out = sorted_list_of_set ?W"
    by (simp add: index_def comp_def)
  have rows: "map snd (df_rows ?out) = map (\<lambda>j. recs ! nat j) (index ?out)"
    by (simp add: index_def comp_def)
  have bounds: "\<forall>j\<in>set (index ?out). 0 \<le> j \<and> j < int (length recs)"
    unfolding ix
    using window_bounds[of "int (length recs)"
        "set (index (getitem_mask (pd_DataFrame recs) bmask))" R]
    by (auto simp: finite_window)
  show ?thesis
    using run ix rows bounds by (intro exI[of _ ?out]) (simp add: finite_window)
qed

text \<open>Matches at 2 and 4 among ten records, radius 2: the rows 0 to 6, each once.\<close>

lemma context_expansion_example:
  "[''hit''] \<noteq> [] \<and>
   match_mask re_contains (pd_DataFrame overlap_records) [''hit''] = Inr overlap_mask \<and>
   (0::int) < 2 \<and>
   search_logs re_contains (pd_DataFrame overlap_records) [''hit''] 2
     = Inr (rows_at [0, 1, 2, 3, 4, 5, 6]) \<and>
   sorted_list_of_set (window 10 {2, 4} 2) = [0, 1, 2, 3, 4, 5, 6]"
proof -
  have m: "match_mask re_contains (pd_DataFrame overlap_records) [''hit''] = Inr overlap_mask"
    by code_simp
  have run: "search_logs re_contains (pd_DataFrame overlap_records) [''hit''] 2
      = Inr (rows_at [0, 1, 2, 3, 4, 5, 6])"
    by code_simp
  have ix: "index (rows_at [0, 1, 2, 3, 4, 5, 6]) = [0, 1, 2, 3, 4, 5, 6]"
    by code_simp
  have M: "set (index (getitem_mask (pd_DataFrame overlap_records) overlap_mask)) = {2, 4}"
    by code_simp
  have n: "int (length overlap_records) = 10"
    by code_simp
  from context_expansion[OF _ m, of 2]
  have "sorted_list_of_set (window 10 {2, 4} 2) = [0, 1, 2, 3, 4, 5, 6]"
    by (simp only: run M n) (simp add: ix)
  with m run show ?thesis by simp
qed

subsection \<open>Radius zero\<close>

text \<open>
  Where the filter computes a mask: for a non-empty term list, \<^verbatim>\<open>search_logs\<close> with
  \<open>delta = 0\<close> returns \<^verbatim>\<open>df[mask]\<close>, exactly the rows whose message holds every term, in
  ascending index order, and no row of context.
\<close>

lemma radius_zero_identity:
  assumes "terms \<noteq> []"
    and "match_mask c (pd_DataFrame recs) terms = Inr bmask"
  shows "\<exists>out. search_logs c (pd_DataFrame recs) terms 0 = Inr out
     \<and> df_rows out = filter (\<lambda>row. matches_all c terms (snd row)) (df_rows (pd_DataFrame recs))
     \<and> out = getitem_mask (pd_DataFrame recs) bmask
     \<and> columns out = columns (pd_DataFrame recs)
     \<and> sorted (index out) \<and> distinct (index out)"
proof -
  let ?df = "pd_DataFrame recs"
  have bm: "getitem_mask ?df bmask =
      ?df\<lparr>df_rows := filter (\<lambda>row. matches_all c terms (snd row)) (df_rows ?df)\<rparr>"
    using match_mask_sem[OF assms(2)] by (simp add: getitem_mask_map)
  have "search_logs c ?df terms 0 = Inr (getitem_mask ?df bmask)"
    using assms by (simp add: search_logs_def Let_def)
  then show ?thesis
    using filtered_index_sorted(1,2)[of "\<lambda>row. matches_all c terms (snd row)" recs]
    by (simp add: bm index_def)
qed

lemma radius_zero_identity_example:
  "[''hit''] \<noteq> [] \<and>
   match_mask re_contains (pd_DataFrame overlap_records) [''hit''] = Inr overlap_mask \<and>
   (\<exists>out. search_logs re_contains (pd_DataFrame overlap_records) [''hit''] 0 = Inr out
      \<and> index out = [2, 4])"
proof -
  have m: "match_mask re_contains (pd_DataFrame overlap_records) [''hit''] = Inr overlap_mask"
    by code_simp
  have M: "index (getitem_mask (pd_DataFrame overlap_records) overlap_mask) = [2, 4]"
    by code_simp
  from radius_zero_identity[OF _ m] obtain out where
    "search_logs re_contains (pd_DataFrame overlap_records) [''hit''] 0 = Inr out"
    "out = getitem_mask (pd_DataFrame overlap_records) overlap_mask"
    by auto
  with m M show ?thesis by simp
qed

subsection \<open>No terms\<close>

text \<open>
  Claim C6 (empty term list). With an empty term list \<^verbatim>\<open>search_logs\<close> returns the frame it
  was given, unchanged, for any \<open>delta\<close>; so does the pipeline when no \<^verbatim>\<open>--term\<close> is given:
  \<^verbatim>\<open>main\<close> hands the whole parsed frame on (or reports that it is empty).
\<close>

theorem empty_terms_unfiltered:
  "search_logs c df [] delta = Inr df \<and>
   search_logs c df (arg_terms None) delta = Inr df \<and>
   main c output None delta max_rows =
     (case parse_journalctl_output output of
        Inl e \<Rightarrow> Inl e
      | Inr parsed \<Rightarrow> Inr (if empty parsed then NoResults else PrintTable parsed [] max_rows))"
  by (simp add: search_logs_def arg_terms_def main_def split: sum.splits)

theorem empty_terms_unfiltered_witness:
  "search_logs re_contains (pd_DataFrame overlap_records) [] 3 = Inr (pd_DataFrame overlap_records)"
  using empty_terms_unfiltered[of re_contains "pd_DataFrame overlap_records" 3] by blast

subsection \<open>A larger radius\<close>

text \<open>
  Claim C8 (radius monotonicity). For radii \<open>0 \<le> R1 < R2\<close> and the same records and terms,
  if \<^verbatim>\<open>search_logs\<close> returns a frame for \<open>R1\<close> it returns one for \<open>R2\<close>, and every index of
  the first is an index of the second.
\<close>

theorem radius_monotone:
  assumes "0 \<le> R1" and "R1 < R2"
    and "search_logs c (pd_DataFrame recs) terms R1 = Inr a"
  shows "\<exists>b. search_logs c (pd_DataFrame recs) terms R2 = Inr b \<and> set (index a) \<subseteq> set (index b)"
proof (cases "terms = []")
  case True
  with assms(3) show ?thesis by (simp add: search_logs_def)
next
  case False
  with assms(3) obtain bmask where mask: "match_mask c (pd_DataFrame recs) terms = Inr bmask"
    by (auto simp: search_logs_def split: sum.splits)
  let ?M = "set (index (getitem_mask (pd_DataFrame recs) bmask))"
  from assms(3) have "set (index a) = window (int (length recs)) ?M R1"
    by (simp add: search_logs_frame[OF False mask]) (auto simp: set_index_frame finite_window)
  moreover have "window (int (length recs)) ?M R1 \<subseteq> window (int (length recs)) ?M R2"
    using assms(2) by (intro window_mono) simp
  ultimately show ?thesis
    by (simp add: search_logs_frame[OF False mask] set_index_frame finite_window)
qed

theorem radius_monotone_witness:
  "(0::int) \<le> 1 \<and> (1::int) < 2 \<and>
   search_logs re_contains (pd_DataFrame overlap_records) [''hit''] 1
     = Inr (rows_at [1, 2, 3, 4, 5]) \<and>
   (\<exists>b. search_logs re_contains (pd_DataFrame overlap_records) [''hit''] 2 = Inr b
      \<and> set (index (rows_at [1, 2, 3, 4, 5])) \<subseteq> set (index b))"
proof -
  have run: "search_logs re_contains (pd_DataFrame overlap_records) [''hit''] 1
      = Inr (rows_at [1, 2, 3, 4, 5])"
    by code_simp
  from radius_monotone[OF _ _ run, of 2] run show ?thesis by simp
qed

subsection \<open>A negative radius\<close>

text \<open>
  Claim C10 (negative delta). For a non-empty term list with at least one matching record
  and a negative \<open>delta\<close>, every range \<^verbatim>\<open>range(max(0, idx - delta), min(len(df), idx + delta + 1))\<close>
  is empty, and \<^verbatim>\<open>search_logs\<close> returns the frame without any row.
\<close>

theorem negative_delta_empty:
  assumes "terms \<noteq> []"
    and "match_mask c df terms = Inr bmask"
    and "index (getitem_mask df bmask) \<noteq> []"
    and "delta < 0"
  shows "search_logs c df terms delta = Inr (df\<lparr>df_rows := []\<rparr>)"
  using assms
  by (simp add: search_logs_def Let_def context_loop_window window_negative iloc_nil)

theorem negative_delta_empty_witness:
  "[''hit''] \<noteq> [] \<and>
   match_mask re_contains (pd_DataFrame overlap_records) [''hit''] = Inr overlap_mask \<and>
   index (getitem_mask (pd_DataFrame overlap_records) overlap_mask) \<noteq> [] \<and>
   (- 1 :: int) < 0 \<and>
   search_logs re_contains (pd_DataFrame overlap_records) [''hit''] (- 1) = Inr (rows_at [])"
proof -
  have m: "match_mask re_contains (pd_DataFrame overlap_records) [''hit''] = Inr overlap_mask"
    by code_simp
  have M: "index (getitem_mask (pd_DataFrame overlap_records) overlap_mask) \<noteq> []"
    by code_simp
  from negative_delta_empty[OF _ m M, of "- 1"] m M show ?thesis
    by (simp add: rows_at_def)
qed

subsection \<open>No match\<close>

text \<open>When the filter computes a mask that selects no row, the result has no row for any
  radius, and \<^verbatim>\<open>main\<close> prints the message of an empty result.\<close>

lemma no_match_no_rows:
  assumes "terms \<noteq> []"
    and "match_mask c df terms = Inr bmask"
    and "index (getitem_mask df bmask) = []"
  shows "search_logs c df terms R = Inr (df\<lparr>df_rows := []\<rparr>)"
  using assms by (simp add: search_logs_def Let_def getitem_mask_def index_def)

lemma main_no_match:
  assumes "parse_journalctl_output output = Inr df"
    and "terms \<noteq> []"
    and "match_mask c df terms = Inr bmask"
    and "index (getitem_mask df bmask) = []"
  shows "main c output (Some terms) delta max_rows = Inr NoResults"
  using assms no_match_no_rows[OF assms(2,3,4), of delta]
  by (simp add: main_def arg_terms_def empty_def)

text \<open>A frame without columns, which is what \<^verbatim>\<open>pd.DataFrame([])\<close> is, has no column
  \<^verbatim>\<open>message\<close>: the first pass of the loop over the terms raises.\<close>

lemma search_logs_no_columns:
  "terms \<noteq> [] \<Longrightarrow> search_logs c (pd_DataFrame []) terms delta = Inl (KeyError ''message'')"
  by (cases terms)
    (simp_all add: search_logs_def match_mask_def getitem_message_def pd_DataFrame_def)

text \<open>
  Claim C4 (context expansion: for every record sequence of length \<open>N\<close>, match index set \<open>M\<close>
  and radius \<open>R > 0\<close>, \<^verbatim>\<open>search_logs\<close> returns the records at the indices of the window
  around \<open>M\<close>) fails on the code for the empty record sequence. With \<open>N = 0\<close> there is no
  match, the window is empty and the claim has \<^verbatim>\<open>search_logs\<close> return no record; the code
  raises \<^verbatim>\<open>KeyError\<close> at \<^verbatim>\<open>df['message']\<close>, because \<^verbatim>\<open>pd.DataFrame([])\<close> has no columns.
\<close>

theorem context_expansion_empty_raises:
  "parse_journalctl_output [] = Inr (pd_DataFrame [])
   \<and> search_logs re_contains (pd_DataFrame []) [''error''] 2 = Inl (KeyError ''message'')
   \<and> window (int (length ([] :: LogRecord list))) {} 2 = {}"
proof -
  have "parse_journalctl_output [] = Inr (pd_DataFrame [])"
    by code_simp
  moreover have "search_logs re_contains (pd_DataFrame []) [''error''] 2 = Inl (KeyError ''message'')"
    by code_simp
  moreover have "window (int (length ([] :: LogRecord list))) {} 2 = {}"
    by (simp add: window_def)
  ultimately show ?thesis by simp
qed

text \<open>
  Claim C5 (radius-0 identity: for every record sequence and non-empty term list,
  \<^verbatim>\<open>search_logs\<close> with \<open>delta = 0\<close> returns exactly the matching records) fails on the code
  for the empty record sequence. No record matches the term \<^verbatim>\<open>error\<close>, there being none,
  so the claim has \<^verbatim>\<open>search_logs\<close> return no record; the code raises \<^verbatim>\<open>KeyError\<close> at
  \<^verbatim>\<open>df['message']\<close>, because \<^verbatim>\<open>pd.DataFrame([])\<close> has no columns.
\<close>

theorem radius_zero_empty_raises:
  "parse_journalctl_output [] = Inr (pd_DataFrame [])
   \<and> filter (\<lambda>row. matches_all re_contains [''error''] (snd row)) (df_rows (pd_DataFrame [])) = []
   \<and> search_logs re_contains (pd_DataFrame []) [''error''] 0 = Inl (KeyError ''message'')"
  by code_simp

text \<open>
  Claim C9 (an empty match is an empty result and no error) fails on the code for the
  empty record sequence. The empty text has no line, \<^verbatim>\<open>parse_journalctl_output\<close> returns
  \<^verbatim>\<open>pd.DataFrame([])\<close>, and with the term \<^verbatim>\<open>error\<close> (which no record matches, there being
  none) \<^verbatim>\<open>search_logs\<close> raises \<^verbatim>\<open>KeyError\<close> at \<^verbatim>\<open>df['message']\<close>; \<^verbatim>\<open>main\<close> ends with the
  exception instead of the message of an empty result.
\<close>

theorem empty_output_raises:
  "parse_journalctl_output [] = Inr (pd_DataFrame [])
   \<and> search_logs re_contains (pd_DataFrame []) [''error''] 0 = Inl (KeyError ''message'')
   \<and> main re_contains [] (Some [''error'']) 0 100 = Inl (KeyError ''message'')"
  by code_simp

end
